theory Spec2Isabelle
  imports
    Main
    "HOL-Library.Multiset"
    "HOL-Library.Char_ord"
    "HOL-Library.List_Lexorder"
    "HOL-Library.Product_Lexorder"
begin

section \<open>Data model\<close>

text \<open>
  The Go structs \<^verbatim>\<open>WaitingListEntry\<close> and \<^verbatim>\<open>Ambulance\<close> are used by
  \<^verbatim>\<open>impl_ambulance_waiting_list.go\<close> but declared elsewhere. The fields below are the ones
  the handlers read and write. A \<^verbatim>\<open>time.Time\<close> is the integer offset of its instant from
  the zero value \<^verbatim>\<open>time.Time{}\<close>, so \<^verbatim>\<open>t.After(time.Time{})\<close> is \<open>0 < t\<close>. The
  duration is a Go integer of which only the test \<^verbatim>\<open>> 0\<close> is taken. A Go slice is
  \<open>None\<close> when it is \<^verbatim>\<open>nil\<close> and \<open>Some xs\<close> otherwise. The field \<^verbatim>\<open>Id\<close> of either
  struct carries a suffix, since \<open>Id\<close> is the identity relation of HOL.
\<close>

record WaitingListEntry =
  Id_entry :: string
  PatientId :: string
  WaitingSince :: int
  EstimatedDurationMinutes :: int

record Ambulance =
  Id_ambulance :: string
  Name :: string
  WaitingList :: "WaitingListEntry list option"

definition elems :: "'a list option \<Rightarrow> 'a list" where
  "elems s = (case s of None \<Rightarrow> [] | Some xs \<Rightarrow> xs)"

subsection \<open>Responses\<close>

text \<open>
  The second component of a handler's result is an \<^verbatim>\<open>interface{}\<close>: a \<^verbatim>\<open>gin.H\<close> with the
  keys \<^verbatim>\<open>status\<close>, \<^verbatim>\<open>message\<close> and, for a binding failure, \<^verbatim>\<open>error\<close>; one entry; a
  slice of entries; or \<^verbatim>\<open>nil\<close>.
\<close>

datatype payload =
    H int string "string option"
  | Entry WaitingListEntry
  | Entries "WaitingListEntry list option"
  | NoBody

abbreviation StatusOK :: int where "StatusOK \<equiv> 200"
abbreviation StatusNoContent :: int where "StatusNoContent \<equiv> 204"
abbreviation StatusBadRequest :: int where "StatusBadRequest \<equiv> 400"
abbreviation StatusNotFound :: int where "StatusNotFound \<equiv> 404"
abbreviation StatusConflict :: int where "StatusConflict \<equiv> 409"
abbreviation StatusInternalServerError :: int where "StatusInternalServerError \<equiv> 500"

type_synonym response = "Ambulance option \<times> payload \<times> int"

subsection \<open>Slices\<close>

text \<open>
  Go panics on an index or a slice bound out of range. Each such access of the handlers
  is an explicit branch: \<open>Inl IndexOutOfRange\<close> is the panic. The bounds of a slice
  expression are checked against the length (Go checks the upper bound against the
  capacity, which is at least the length, so the model panics whenever Go does).
\<close>

datatype panic = IndexOutOfRange

definition index_at :: "'a list \<Rightarrow> int \<Rightarrow> panic + 'a" where
  "index_at s i =
     (if 0 \<le> i \<and> i < int (length s) then Inr (s ! nat i) else Inl IndexOutOfRange)"

definition assign_at :: "'a list \<Rightarrow> int \<Rightarrow> ('a \<Rightarrow> 'a) \<Rightarrow> panic + 'a list" where
  "assign_at s i f =
     (if 0 \<le> i \<and> i < int (length s) then Inr (s[nat i := f (s ! nat i)])
      else Inl IndexOutOfRange)"

definition slice_to :: "'a list \<Rightarrow> int \<Rightarrow> panic + 'a list" where
  "slice_to s i =
     (if 0 \<le> i \<and> i \<le> int (length s) then Inr (take (nat i) s) else Inl IndexOutOfRange)"

definition slice_from :: "'a list \<Rightarrow> int \<Rightarrow> panic + 'a list" where
  "slice_from s i =
     (if 0 \<le> i \<and> i \<le> int (length s) then Inr (drop (nat i) s) else Inl IndexOutOfRange)"

definition and_then :: "panic + 'a \<Rightarrow> ('a \<Rightarrow> panic + 'b) \<Rightarrow> panic + 'b" where
  "and_then m k = (case m of Inl p \<Rightarrow> Inl p | Inr x \<Rightarrow> k x)"

text \<open>
  \<^verbatim>\<open>slices.IndexFunc(s, f)\<close>: the loop \<^verbatim>\<open>for i := range s\<close> returns the first index
  whose element satisfies \<^verbatim>\<open>f\<close>, and -1 after the loop.
\<close>

fun IndexFunc_from :: "int \<Rightarrow> 'a list \<Rightarrow> ('a \<Rightarrow> bool) \<Rightarrow> int" where
  "IndexFunc_from i [] f = - 1"
| "IndexFunc_from i (x # xs) f = (if f x then i else IndexFunc_from (i + 1) xs f)"

definition IndexFunc :: "'a list \<Rightarrow> ('a \<Rightarrow> bool) \<Rightarrow> int" where
  "IndexFunc s f = IndexFunc_from 0 s f"

section \<open>The reconciler\<close>

text \<open>
  Modelled from the spec: the sort key of the reconciler, which is not among the
  sources. Section 4.2 orders entries by \<^verbatim>\<open>waitingSince\<close> and breaks ties by the entry
  \<^verbatim>\<open>id\<close>; pairs compare lexicographically, and strings as Go compares them, byte by byte.
\<close>

definition reconcile_key :: "WaitingListEntry \<Rightarrow> int \<times> string" where
  "reconcile_key e = (WaitingSince e, Id_entry e)"

text \<open>
  Modelled from the spec: the method \<^verbatim>\<open>reconcileWaitingList\<close> of \<^verbatim>\<open>Ambulance\<close> is
  called by the handlers and defined in a file that is not among the sources. The spec
  (section 4.2) gives its contract: it orders the entry list by \<^verbatim>\<open>waitingSince\<close>
  ascending, ties broken by the entry \<^verbatim>\<open>id\<close>, and has no failure mode (the empty list
  included). Entries that agree on both keys keep their order. The spec's data model has
  no derived field, so the entries themselves are unchanged.
\<close>

definition reconcileWaitingList :: "WaitingListEntry list \<Rightarrow> WaitingListEntry list" where
  "reconcileWaitingList entries = sort_key reconcile_key entries"

section \<open>Waiting list operations\<close>

text \<open>
  Each handler passes a closure to \<^verbatim>\<open>updateAmbulanceFunc\<close>; the closure maps the loaded
  ambulance to the new state (or \<^verbatim>\<open>nil\<close>), the payload and the status. The functions
  below are these closures. Their inputs beside the ambulance are what they read from
  the request: the result of \<^verbatim>\<open>ShouldBindJSON\<close> (\<open>Inl\<close> the text of the error), the path
  parameter \<^verbatim>\<open>entryId\<close>, and for Create the string that \<^verbatim>\<open>uuid.NewString()\<close> returns.
  The reconciler is the first argument, since its code is not among the sources.
\<close>

text \<open>
  Lines 71 to 76 of Create: an empty id or the placeholder \<^verbatim>\<open>@new\<close> is replaced by the
  generated string.
\<close>

definition withGeneratedId :: "string \<Rightarrow> WaitingListEntry \<Rightarrow> WaitingListEntry" where
  "withGeneratedId newString bound =
     (if Id_entry bound = '''' \<or> Id_entry bound = ''@new''
      then bound\<lparr>Id_entry := newString\<rparr> else bound)"

definition CreateWaitingListEntry ::
  "(WaitingListEntry list \<Rightarrow> WaitingListEntry list) \<Rightarrow> string \<Rightarrow>
   string + WaitingListEntry \<Rightarrow> Ambulance \<Rightarrow> panic + response" where
  "CreateWaitingListEntry reconcile newString body ambulance =
     (case body of
        Inl err \<Rightarrow>
          Inr (None, H StatusBadRequest ''Invalid request body'' (Some err), StatusBadRequest)
      | Inr bound \<Rightarrow>
          if PatientId bound = '''' then
            Inr (None, H StatusBadRequest ''Patient ID is required'' None, StatusBadRequest)
          else
            let entry = withGeneratedId newString bound;
                conflictIndx = IndexFunc (elems (WaitingList ambulance))
                  (\<lambda>waiting. Id_entry entry = Id_entry waiting
                     \<or> PatientId entry = PatientId waiting)
            in if conflictIndx \<ge> 0 then
                 Inr (None, H StatusConflict ''Entry already exists'' None, StatusConflict)
               else
                 let waitingList = reconcile (elems (WaitingList ambulance) @ [entry]);
                     entryIndx = IndexFunc waitingList
                       (\<lambda>waiting. Id_entry entry = Id_entry waiting)
                 in if entryIndx < 0 then
                      Inr (None, H StatusInternalServerError ''Failed to save entry'' None,
                           StatusInternalServerError)
                    else
                      and_then (index_at waitingList entryIndx) (\<lambda>stored.
                        Inr (Some (ambulance\<lparr>WaitingList := Some waitingList\<rparr>),
                             Entry stored, StatusOK)))"

definition DeleteWaitingListEntry ::
  "(WaitingListEntry list \<Rightarrow> WaitingListEntry list) \<Rightarrow> string \<Rightarrow> Ambulance \<Rightarrow>
   panic + response" where
  "DeleteWaitingListEntry reconcile entryId ambulance =
     (if entryId = '''' then
        Inr (None, H StatusBadRequest ''Entry ID is required'' None, StatusBadRequest)
      else
        let entryIndx = IndexFunc (elems (WaitingList ambulance))
              (\<lambda>waiting. entryId = Id_entry waiting)
        in if entryIndx < 0 then
             Inr (None, H StatusNotFound ''Entry not found'' None, StatusNotFound)
           else
             and_then (slice_to (elems (WaitingList ambulance)) entryIndx) (\<lambda>front.
             and_then (slice_from (elems (WaitingList ambulance)) (entryIndx + 1)) (\<lambda>back.
               Inr (Some (ambulance\<lparr>WaitingList := Some (reconcile (front @ back))\<rparr>),
                    NoBody, StatusNoContent))))"

definition GetWaitingListEntries :: "Ambulance \<Rightarrow> panic + response" where
  "GetWaitingListEntries ambulance =
     (let result = (case WaitingList ambulance of None \<Rightarrow> Some [] | Some s \<Rightarrow> Some s)
      in Inr (None, Entries result, StatusOK))"

definition GetWaitingListEntry :: "string \<Rightarrow> Ambulance \<Rightarrow> panic + response" where
  "GetWaitingListEntry entryId ambulance =
     (if entryId = '''' then
        Inr (None, H StatusBadRequest ''Entry ID is required'' None, StatusBadRequest)
      else
        let entryIndx = IndexFunc (elems (WaitingList ambulance))
              (\<lambda>waiting. entryId = Id_entry waiting)
        in if entryIndx < 0 then
             Inr (None, H StatusNotFound ''Entry not found'' None, StatusNotFound)
           else
             and_then (index_at (elems (WaitingList ambulance)) entryIndx) (\<lambda>found.
               Inr (None, Entry found, StatusOK)))"

definition UpdateWaitingListEntry ::
  "(WaitingListEntry list \<Rightarrow> WaitingListEntry list) \<Rightarrow> string + WaitingListEntry \<Rightarrow>
   string \<Rightarrow> Ambulance \<Rightarrow> panic + response" where
  "UpdateWaitingListEntry reconcile body entryId ambulance =
     (case body of
        Inl err \<Rightarrow>
          Inr (None, H StatusBadRequest ''Invalid request body'' (Some err), StatusBadRequest)
      | Inr entry \<Rightarrow>
          if entryId = '''' then
            Inr (None, H StatusBadRequest ''Entry ID is required'' None, StatusBadRequest)
          else
            let entryIndx = IndexFunc (elems (WaitingList ambulance))
                  (\<lambda>waiting. entryId = Id_entry waiting)
            in if entryIndx < 0 then
                 Inr (None, H StatusNotFound ''Entry not found'' None, StatusNotFound)
               else
                 and_then
                   (if PatientId entry \<noteq> '''' then
                      assign_at (elems (WaitingList ambulance)) entryIndx
                        (\<lambda>w. w\<lparr>PatientId := PatientId entry\<rparr>)
                    else Inr (elems (WaitingList ambulance))) (\<lambda>s1.
                 and_then
                   (if Id_entry entry \<noteq> '''' then
                      assign_at s1 entryIndx (\<lambda>w. w\<lparr>Id_entry := Id_entry entry\<rparr>)
                    else Inr s1) (\<lambda>s2.
                 and_then
                   (if 0 < WaitingSince entry then
                      assign_at s2 entryIndx (\<lambda>w. w\<lparr>WaitingSince := WaitingSince entry\<rparr>)
                    else Inr s2) (\<lambda>s3.
                 and_then
                   (if 0 < EstimatedDurationMinutes entry then
                      assign_at s3 entryIndx
                        (\<lambda>w. w\<lparr>EstimatedDurationMinutes := EstimatedDurationMinutes entry\<rparr>)
                    else Inr s3) (\<lambda>s4.
                 let waitingList = reconcile s4
                 in and_then (index_at waitingList entryIndx) (\<lambda>atIndx.
                      Inr (Some (ambulance\<lparr>WaitingList := Some waitingList\<rparr>),
                           Entry atIndx, StatusOK)))))))"

section \<open>The updater\<close>

text \<open>
  Modelled from the spec: the document store behind the updater, an external
  collaborator (sections 2 and 6) that fetches one ambulance document by id and replaces
  it whole. It is a map from ambulance ids to documents, together with the number of
  replace calls issued so far.
\<close>

record Store =
  documents :: "string \<Rightarrow> Ambulance option"
  replaceCalls :: nat

text \<open>
  Modelled from the spec: \<^verbatim>\<open>updateAmbulanceFunc\<close> is called by every handler and defined
  in a file that is not among the sources. The spec (section 4.1) gives its contract:
  it fetches the ambulance document by id and fails with a not-found outcome before the
  mutation runs when there is none; when the mutation returns a nil new state it issues
  no write; otherwise it replaces the whole document, and a failure to persist is a
  server-side failure; the mutation's payload and status are forwarded verbatim.
  Whether the replace call fails is an input. The texts of the updater's own error
  payloads are not given by the spec.
\<close>

definition updateAmbulanceFunc ::
  "bool \<Rightarrow> Store \<Rightarrow> string \<Rightarrow> (Ambulance \<Rightarrow> panic + response) \<Rightarrow>
   panic + (Store \<times> payload \<times> int)" where
  "updateAmbulanceFunc replaceFails db ambulanceId updater =
     (case documents db ambulanceId of
        None \<Rightarrow> Inr (db, H StatusNotFound ''Ambulance not found'' None, StatusNotFound)
      | Some ambulance \<Rightarrow>
          and_then (updater ambulance) (\<lambda>(updated, responseContent, status).
            case updated of
              None \<Rightarrow> Inr (db, responseContent, status)
            | Some newState \<Rightarrow>
                if replaceFails then
                  Inr (db\<lparr>replaceCalls := Suc (replaceCalls db)\<rparr>,
                       H StatusInternalServerError ''Failed to update ambulance'' None,
                       StatusInternalServerError)
                else
                  Inr (db\<lparr>documents := (documents db)(ambulanceId \<mapsto> newState),
                          replaceCalls := Suc (replaceCalls db)\<rparr>,
                       responseContent, status)))"

section \<open>Properties in the words of the spec\<close>

text \<open>
  The merge of Update as the spec words it (section 4.3): each field of the target is
  overwritten by the request's value only if that value is non-empty, non-zero or after
  the zero timestamp. The code performs four guarded assignments in place; lemma
  \<open>update_merges\<close> below shows that they amount to this record.
\<close>

definition merged :: "WaitingListEntry \<Rightarrow> WaitingListEntry \<Rightarrow> WaitingListEntry" where
  "merged request target =
     \<lparr>Id_entry = (if Id_entry request \<noteq> '''' then Id_entry request else Id_entry target),
      PatientId = (if PatientId request \<noteq> '''' then PatientId request else PatientId target),
      WaitingSince =
        (if 0 < WaitingSince request then WaitingSince request else WaitingSince target),
      EstimatedDurationMinutes =
        (if 0 < EstimatedDurationMinutes request then EstimatedDurationMinutes request
         else EstimatedDurationMinutes target)\<rparr>"

text \<open>The ordering of section 4.2: earlier arrival first, ties broken by the entry id.\<close>

definition entry_le :: "WaitingListEntry \<Rightarrow> WaitingListEntry \<Rightarrow> bool" where
  "entry_le a b \<longleftrightarrow>
     WaitingSince a < WaitingSince b
     \<or> (WaitingSince a = WaitingSince b \<and> Id_entry a \<le> Id_entry b)"

text \<open>The uniqueness invariant of section 3: ids and patient ids are each pairwise distinct.\<close>

definition unique_ids :: "WaitingListEntry list \<Rightarrow> bool" where
  "unique_ids s \<longleftrightarrow> distinct (map Id_entry s) \<and> distinct (map PatientId s)"

subsection \<open>Example data\<close>

text \<open>
  Two patients, the first of whom arrived earlier; an ambulance whose list holds both,
  in reconciled order; an ambulance with no list; and a store holding the former.
\<close>

abbreviation early :: WaitingListEntry where
  "early \<equiv> \<lparr>Id_entry = ''a'', PatientId = ''p1'', WaitingSince = 100,
             EstimatedDurationMinutes = 15\<rparr>"

abbreviation late :: WaitingListEntry where
  "late \<equiv> \<lparr>Id_entry = ''b'', PatientId = ''p2'', WaitingSince = 200,
            EstimatedDurationMinutes = 20\<rparr>"

abbreviation newcomer :: WaitingListEntry where
  "newcomer \<equiv> \<lparr>Id_entry = ''@new'', PatientId = ''p3'', WaitingSince = 150,
                EstimatedDurationMinutes = 10\<rparr>"

abbreviation bobulova :: Ambulance where
  "bobulova \<equiv> \<lparr>Id_ambulance = ''bobulova'', Name = ''Dr. Bobulova'',
                WaitingList = Some [early, late]\<rparr>"

abbreviation unused :: Ambulance where
  "unused \<equiv> \<lparr>Id_ambulance = ''unused'', Name = ''Spare'', WaitingList = None\<rparr>"

abbreviation store0 :: Store where
  "store0 \<equiv> \<lparr>documents = [''bobulova'' \<mapsto> bobulova], replaceCalls = 0\<rparr>"

section \<open>Facts about the slice operations\<close>

lemma IndexFunc_from_takeWhile:
  "IndexFunc_from i s f =
     (if \<exists>x\<in>set s. f x then i + int (length (takeWhile (\<lambda>x. \<not> f x) s)) else - 1)"
  by (induction s arbitrary: i) auto

lemma IndexFunc_takeWhile:
  "IndexFunc s f =
     (if \<exists>x\<in>set s. f x then int (length (takeWhile (\<lambda>x. \<not> f x) s)) else - 1)"
  by (simp add: IndexFunc_def IndexFunc_from_takeWhile)

lemma IndexFunc_neg_iff: "IndexFunc s f < 0 \<longleftrightarrow> (\<forall>x\<in>set s. \<not> f x)"
  by (simp add: IndexFunc_takeWhile)

lemma IndexFunc_nonneg_iff: "0 \<le> IndexFunc s f \<longleftrightarrow> (\<exists>x\<in>set s. f x)"
  by (simp add: IndexFunc_takeWhile)

lemma takeWhile_stops_early:
  "\<exists>x\<in>set s. \<not> P x \<Longrightarrow> length (takeWhile P s) < length s"
  by (induction s) auto

lemma IndexFunc_bound: "IndexFunc s f < int (length s)"
proof (cases "\<exists>x\<in>set s. f x")
  case True
  then have "length (takeWhile (\<lambda>x. \<not> f x) s) < length s"
    by (simp add: takeWhile_stops_early)
  with True show ?thesis by (simp add: IndexFunc_takeWhile)
next
  case False
  then show ?thesis by (simp add: IndexFunc_takeWhile)
qed

lemma IndexFunc_sat:
  assumes "0 \<le> IndexFunc s f"
  shows "f (s ! nat (IndexFunc s f))"
proof -
  from assms have ex: "\<exists>x\<in>set s. f x" by (simp add: IndexFunc_nonneg_iff)
  then have "length (takeWhile (\<lambda>x. \<not> f x) s) < length s"
    by (simp add: takeWhile_stops_early)
  then have "\<not> \<not> f (s ! length (takeWhile (\<lambda>x. \<not> f x) s))"
    by (rule nth_length_takeWhile)
  with ex show ?thesis by (simp add: IndexFunc_takeWhile)
qed

lemma index_at_IndexFunc:
  "0 \<le> IndexFunc s f \<Longrightarrow> index_at s (IndexFunc s f) = Inr (s ! nat (IndexFunc s f))"
  by (simp add: index_at_def IndexFunc_bound)

lemma assign_at_ok:
  "0 \<le> i \<Longrightarrow> i < int (length s) \<Longrightarrow> assign_at s i f = Inr (s[nat i := f (s ! nat i)])"
  by (simp add: assign_at_def)

lemma index_at_ok:
  "0 \<le> i \<Longrightarrow> i < int (length s) \<Longrightarrow> index_at s i = Inr (s ! nat i)"
  by (simp add: index_at_def)

lemma and_then_Inr [simp]: "and_then (Inr x) k = k x"
  by (simp add: and_then_def)

lemma and_then_Inl [simp]: "and_then (Inl p) k = Inl p"
  by (simp add: and_then_def)

section \<open>Facts about the reconciler\<close>

lemma sorted_reconcile: "sorted (map reconcile_key (reconcileWaitingList entries))"
  by (simp add: reconcileWaitingList_def)

lemma mset_reconcile: "mset (reconcileWaitingList entries) = mset entries"
  by (simp add: reconcileWaitingList_def)

lemma length_reconcile: "length (reconcileWaitingList entries) = length entries"
  by (simp add: reconcileWaitingList_def)

section \<open>What each mutation returns\<close>

lemma create_appends:
  assumes "body = Inr bound" and "PatientId bound \<noteq> ''''"
    and "\<forall>w\<in>set (elems (WaitingList ambulance)).
           \<not> (Id_entry (withGeneratedId newString bound) = Id_entry w
              \<or> PatientId (withGeneratedId newString bound) = PatientId w)"
    and "0 \<le> IndexFunc (reconcile (elems (WaitingList ambulance) @ [withGeneratedId newString bound]))
             (\<lambda>waiting. Id_entry (withGeneratedId newString bound) = Id_entry waiting)"
  shows "CreateWaitingListEntry reconcile newString body ambulance =
     Inr (Some (ambulance\<lparr>WaitingList :=
                  Some (reconcile (elems (WaitingList ambulance) @ [withGeneratedId newString bound]))\<rparr>),
          Entry (reconcile (elems (WaitingList ambulance) @ [withGeneratedId newString bound])
                 ! nat (IndexFunc (reconcile (elems (WaitingList ambulance) @ [withGeneratedId newString bound]))
             (\<lambda>waiting. Id_entry (withGeneratedId newString bound) = Id_entry waiting))),
          StatusOK)"
proof -
  from assms(3) have "IndexFunc (elems (WaitingList ambulance))
      (\<lambda>waiting. Id_entry (withGeneratedId newString bound) = Id_entry waiting
         \<or> PatientId (withGeneratedId newString bound) = PatientId waiting) < 0"
    by (simp only: IndexFunc_neg_iff)
  with assms(1,2,4) show ?thesis
    by (simp add: CreateWaitingListEntry_def Let_def index_at_IndexFunc)
qed

lemma create_new_state:
  assumes "CreateWaitingListEntry reconcile newString body ambulance = Inr (Some newState, p, status)"
  shows "\<exists>bound. body = Inr bound \<and> PatientId bound \<noteq> ''''
           \<and> (\<forall>w\<in>set (elems (WaitingList ambulance)).
                 Id_entry (withGeneratedId newString bound) \<noteq> Id_entry w
               \<and> PatientId (withGeneratedId newString bound) \<noteq> PatientId w)
           \<and> newState = ambulance\<lparr>WaitingList :=
                Some (reconcile (elems (WaitingList ambulance) @ [withGeneratedId newString bound]))\<rparr>"
proof (cases body)
  case (Inl err)
  with assms show ?thesis by (simp add: CreateWaitingListEntry_def)
next
  case (Inr bound)
  let ?e = "withGeneratedId newString bound"
  let ?c = "IndexFunc (elems (WaitingList ambulance))
      (\<lambda>waiting. Id_entry ?e = Id_entry waiting \<or> PatientId ?e = PatientId waiting)"
  let ?s = "reconcile (elems (WaitingList ambulance) @ [?e])"
  from assms Inr have pid: "PatientId bound \<noteq> ''''"
    by (auto simp: CreateWaitingListEntry_def)
  from assms Inr pid have c: "?c < 0"
    by (auto simp: CreateWaitingListEntry_def Let_def split: if_splits)
  then have noconf: "\<forall>w\<in>set (elems (WaitingList ambulance)).
      Id_entry ?e \<noteq> Id_entry w \<and> PatientId ?e \<noteq> PatientId w"
    by (simp add: IndexFunc_neg_iff)
  from assms Inr pid c have "newState = ambulance\<lparr>WaitingList := Some ?s\<rparr>"
    by (auto simp: CreateWaitingListEntry_def Let_def index_at_IndexFunc split: if_splits)
  with Inr pid noconf show ?thesis by blast
qed

lemma delete_new_state:
  assumes "DeleteWaitingListEntry reconcile entryId ambulance = Inr (Some newState, p, status)"
  shows "\<exists>k. k < length (elems (WaitingList ambulance))
           \<and> newState = ambulance\<lparr>WaitingList :=
                Some (reconcile (take k (elems (WaitingList ambulance))
                                 @ drop (Suc k) (elems (WaitingList ambulance))))\<rparr>"
proof -
  let ?i = "IndexFunc (elems (WaitingList ambulance)) (\<lambda>waiting. entryId = Id_entry waiting)"
  have b: "?i < int (length (elems (WaitingList ambulance)))"
    by (rule IndexFunc_bound)
  from assms have nn: "0 \<le> ?i"
    by (auto simp: DeleteWaitingListEntry_def Let_def split: if_splits)
  from assms nn b have "newState = ambulance\<lparr>WaitingList :=
      Some (reconcile (take (nat ?i) (elems (WaitingList ambulance))
                       @ drop (nat (?i + 1)) (elems (WaitingList ambulance))))\<rparr>"
    by (auto simp: DeleteWaitingListEntry_def Let_def slice_to_def slice_from_def
        split: if_splits)
  moreover from nn have "nat (?i + 1) = Suc (nat ?i)" by simp
  moreover from nn b have "nat ?i < length (elems (WaitingList ambulance))" by simp
  ultimately show ?thesis by auto
qed

lemma update_merges:
  assumes "entryId \<noteq> ''''"
    and "0 \<le> IndexFunc (elems (WaitingList ambulance)) (\<lambda>waiting. entryId = Id_entry waiting)"
  shows "UpdateWaitingListEntry reconcile (Inr entry) entryId ambulance =
     and_then
       (index_at
          (reconcile ((elems (WaitingList ambulance))
             [nat (IndexFunc (elems (WaitingList ambulance)) (\<lambda>waiting. entryId = Id_entry waiting))
                := merged entry (elems (WaitingList ambulance)
                     ! nat (IndexFunc (elems (WaitingList ambulance)) (\<lambda>waiting. entryId = Id_entry waiting)))]))
          (IndexFunc (elems (WaitingList ambulance)) (\<lambda>waiting. entryId = Id_entry waiting)))
       (\<lambda>atIndx.
          Inr (Some (ambulance\<lparr>WaitingList := Some
                 (reconcile ((elems (WaitingList ambulance))
             [nat (IndexFunc (elems (WaitingList ambulance)) (\<lambda>waiting. entryId = Id_entry waiting))
                := merged entry (elems (WaitingList ambulance)
                     ! nat (IndexFunc (elems (WaitingList ambulance)) (\<lambda>waiting. entryId = Id_entry waiting)))]))\<rparr>),
               Entry atIndx, StatusOK))"
proof -
  let ?s = "elems (WaitingList ambulance)"
  let ?i = "IndexFunc ?s (\<lambda>waiting. entryId = Id_entry waiting)"
  have b: "?i < int (length ?s)" by (rule IndexFunc_bound)
  obtain a b c d where t: "?s ! nat ?i =
      \<lparr>Id_entry = a, PatientId = b, WaitingSince = c, EstimatedDurationMinutes = d\<rparr>"
    by (cases "?s ! nat ?i")
  have same: "?s[nat ?i :=
      \<lparr>Id_entry = a, PatientId = b, WaitingSince = c, EstimatedDurationMinutes = d\<rparr>] = ?s"
    using list_update_id [of ?s "nat ?i"] by (simp only: t)
  show ?thesis using assms b
    by (simp add: UpdateWaitingListEntry_def Let_def assign_at_ok t merged_def same)
qed

lemma update_new_state:
  assumes "UpdateWaitingListEntry reconcile body entryId ambulance = Inr (Some newState, p, status)"
  shows "\<exists>entry k. body = Inr entry \<and> entryId \<noteq> ''''
           \<and> k < length (elems (WaitingList ambulance))
           \<and> Id_entry (elems (WaitingList ambulance) ! k) = entryId
           \<and> newState = ambulance\<lparr>WaitingList := Some (reconcile
                ((elems (WaitingList ambulance))
                   [k := merged entry (elems (WaitingList ambulance) ! k)]))\<rparr>"
proof (cases body)
  case (Inl err)
  with assms show ?thesis by (simp add: UpdateWaitingListEntry_def)
next
  case (Inr entry)
  let ?s = "elems (WaitingList ambulance)"
  let ?i = "IndexFunc ?s (\<lambda>waiting. entryId = Id_entry waiting)"
  let ?k = "nat ?i"
  let ?s' = "reconcile (?s[?k := merged entry (?s ! ?k)])"
  from assms Inr have ne: "entryId \<noteq> ''''"
    by (auto simp: UpdateWaitingListEntry_def)
  from assms Inr ne have nn: "0 \<le> ?i"
    by (auto simp: UpdateWaitingListEntry_def Let_def split: if_splits)
  have "?i < int (length ?s)" by (rule IndexFunc_bound)
  with nn have k: "?k < length ?s" by simp
  from nn have id: "Id_entry (?s ! ?k) = entryId"
    using IndexFunc_sat [of ?s "\<lambda>waiting. entryId = Id_entry waiting"] by simp
  from assms Inr have "and_then (index_at ?s' ?i)
      (\<lambda>atIndx. Inr (Some (ambulance\<lparr>WaitingList := Some ?s'\<rparr>), Entry atIndx, StatusOK))
      = Inr (Some newState, p, status)"
    by (simp only: update_merges [OF ne nn])
  then have "newState = ambulance\<lparr>WaitingList := Some ?s'\<rparr>"
    by (cases "index_at ?s' ?i") simp_all
  with Inr ne k id show ?thesis by blast
qed

section \<open>Operations that write nothing\<close>

text \<open>
  Claim C7. For every ambulance state, Get-all returns status 200 with the ambulance's
  waiting list as payload. The payload is a slice that is never nil: a nil or empty
  list is returned as the empty sequence. The new state is nil, so that the updater
  issues no write: for every store, the store after the request is the store before it
  (same documents, same number of replace calls).
\<close>

theorem get_all_returns_list:
  "GetWaitingListEntries ambulance
     = Inr (None, Entries (Some (elems (WaitingList ambulance))), StatusOK)
   \<and> updateAmbulanceFunc replaceFails db ambulanceId GetWaitingListEntries
     = Inr (db,
            (case documents db ambulanceId of
               None \<Rightarrow> H StatusNotFound ''Ambulance not found'' None
             | Some loaded \<Rightarrow> Entries (Some (elems (WaitingList loaded)))),
            (case documents db ambulanceId of
               None \<Rightarrow> StatusNotFound
             | Some loaded \<Rightarrow> StatusOK))"
  by (simp add: GetWaitingListEntries_def updateAmbulanceFunc_def elems_def
      split: option.splits)

lemma get_all_of_nil_list:
  "GetWaitingListEntries unused = Inr (None, Entries (Some []), StatusOK)"
  by (simp add: GetWaitingListEntries_def)

text \<open>
  Claim C8. A Delete request whose entryId is not empty and is the id of no entry of
  the waiting list returns status 404 and a nil new state; run by the updater on a store
  that holds the ambulance, it leaves the store as it was and issues no replace call.
\<close>

theorem delete_unknown_entry:
  assumes "entryId \<noteq> ''''"
    and "entryId \<notin> Id_entry ` set (elems (WaitingList ambulance))"
  shows "DeleteWaitingListEntry reconcile entryId ambulance
           = Inr (None, H StatusNotFound ''Entry not found'' None, StatusNotFound)
         \<and> (documents db ambulanceId = Some ambulance \<longrightarrow>
            updateAmbulanceFunc replaceFails db ambulanceId
                (DeleteWaitingListEntry reconcile entryId)
              = Inr (db, H StatusNotFound ''Entry not found'' None, StatusNotFound))"
proof -
  from assms(2) have "\<forall>w\<in>set (elems (WaitingList ambulance)). \<not> entryId = Id_entry w"
    by auto
  then have "IndexFunc (elems (WaitingList ambulance)) (\<lambda>waiting. entryId = Id_entry waiting) < 0"
    by (simp only: IndexFunc_neg_iff)
  with assms(1) have r: "DeleteWaitingListEntry reconcile entryId ambulance
      = Inr (None, H StatusNotFound ''Entry not found'' None, StatusNotFound)"
    by (simp add: DeleteWaitingListEntry_def Let_def)
  then show ?thesis
    by (simp add: updateAmbulanceFunc_def)
qed

theorem delete_unknown_entry_witness:
  "DeleteWaitingListEntry reconcileWaitingList ''c'' bobulova
     = Inr (None, H StatusNotFound ''Entry not found'' None, StatusNotFound)
   \<and> updateAmbulanceFunc False store0 ''bobulova''
       (DeleteWaitingListEntry reconcileWaitingList ''c'')
     = Inr (store0, H StatusNotFound ''Entry not found'' None, StatusNotFound)"
proof -
  have h1: "''c'' \<noteq> ''''" by simp
  have h2: "''c'' \<notin> Id_entry ` set (elems (WaitingList bobulova))"
    by (simp add: elems_def)
  show ?thesis
    using delete_unknown_entry [OF h1 h2, of reconcileWaitingList store0 "''bobulova''" False]
    by simp
qed

text \<open>
  Claim C4, as the code has it. A Create request that binds, carries a non-empty patient
  id, and whose entry, after id generation, has the id or the patient id of an entry of
  the waiting list returns status 409 and a nil new state; run by the updater on a store
  that holds the ambulance, it leaves the store as it was and issues no replace call.
\<close>

theorem create_conflict:
  assumes "body = Inr bound"
    and "PatientId bound \<noteq> ''''"
    and "\<exists>w\<in>set (elems (WaitingList ambulance)).
            Id_entry (withGeneratedId newString bound) = Id_entry w
          \<or> PatientId (withGeneratedId newString bound) = PatientId w"
  shows "CreateWaitingListEntry reconcile newString body ambulance
           = Inr (None, H StatusConflict ''Entry already exists'' None, StatusConflict)
         \<and> (documents db ambulanceId = Some ambulance \<longrightarrow>
            updateAmbulanceFunc replaceFails db ambulanceId
                (CreateWaitingListEntry reconcile newString body)
              = Inr (db, H StatusConflict ''Entry already exists'' None, StatusConflict))"
proof -
  from assms(3) have "0 \<le> IndexFunc (elems (WaitingList ambulance))
      (\<lambda>waiting. Id_entry (withGeneratedId newString bound) = Id_entry waiting
         \<or> PatientId (withGeneratedId newString bound) = PatientId waiting)"
    by (simp only: IndexFunc_nonneg_iff)
  with assms(1,2) have r: "CreateWaitingListEntry reconcile newString body ambulance
      = Inr (None, H StatusConflict ''Entry already exists'' None, StatusConflict)"
    by (simp add: CreateWaitingListEntry_def Let_def)
  then show ?thesis
    by (simp add: updateAmbulanceFunc_def)
qed

theorem create_conflict_witness:
  "CreateWaitingListEntry reconcileWaitingList ''u-1''
       (Inr (newcomer\<lparr>PatientId := ''p1''\<rparr>)) bobulova
     = Inr (None, H StatusConflict ''Entry already exists'' None, StatusConflict)
   \<and> updateAmbulanceFunc False store0 ''bobulova''
       (CreateWaitingListEntry reconcileWaitingList ''u-1''
          (Inr (newcomer\<lparr>PatientId := ''p1''\<rparr>)))
     = Inr (store0, H StatusConflict ''Entry already exists'' None, StatusConflict)"
proof -
  have h2: "PatientId (newcomer\<lparr>PatientId := ''p1''\<rparr>) \<noteq> ''''" by simp
  have h3: "\<exists>w\<in>set (elems (WaitingList bobulova)).
       Id_entry (withGeneratedId ''u-1'' (newcomer\<lparr>PatientId := ''p1''\<rparr>)) = Id_entry w
     \<or> PatientId (withGeneratedId ''u-1'' (newcomer\<lparr>PatientId := ''p1''\<rparr>)) = PatientId w"
    by (simp add: elems_def withGeneratedId_def)
  show ?thesis
    using create_conflict [OF refl h2 h3, of reconcileWaitingList store0 "''bobulova''" False]
    by simp
qed

text \<open>
  Claim C4 as stated fails for a request without patient id: the patient id is checked
  before the conflict. A request whose id is that of the entry \<open>a\<close> of the list and
  whose patient id is empty returns 400, not 409.
\<close>

theorem create_conflict_without_patient_id:
  "early \<in> set (elems (WaitingList bobulova))
   \<and> Id_entry (withGeneratedId ''u-1'' (newcomer\<lparr>Id_entry := ''a'', PatientId := ''''\<rparr>))
     = Id_entry early
   \<and> CreateWaitingListEntry reconcileWaitingList ''u-1''
       (Inr (newcomer\<lparr>Id_entry := ''a'', PatientId := ''''\<rparr>)) bobulova
     = Inr (None, H StatusBadRequest ''Patient ID is required'' None, StatusBadRequest)"
  by (simp add: CreateWaitingListEntry_def elems_def withGeneratedId_def)

section \<open>Create\<close>

lemma mset_ids_reconcile:
  "mset (map Id_entry (reconcileWaitingList s)) = mset (map Id_entry s)"
  by (simp add: mset_reconcile)

lemma create_finds_appended:
  assumes ids: "\<And>s. mset (map Id_entry (reconcile s)) = mset (map Id_entry s)"
  shows "0 \<le> IndexFunc (reconcile (s @ [entry])) (\<lambda>waiting. Id_entry entry = Id_entry waiting)"
proof -
  have "set (map Id_entry (reconcile (s @ [entry]))) = set (map Id_entry (s @ [entry]))"
    by (rule mset_eq_setD) (rule ids)
  then have "Id_entry entry \<in> Id_entry ` set (reconcile (s @ [entry]))"
    by simp
  then have "\<exists>w\<in>set (reconcile (s @ [entry])). Id_entry entry = Id_entry w"
    by auto
  then show ?thesis by (simp only: IndexFunc_nonneg_iff)
qed

text \<open>
  Claim C5. A valid Create request (the body binds, the patient id is not empty, and
  after id generation no entry of the list has the entry's id or patient id) returns
  status 200 with the entry as it is stored in the reconciled list. The id of that
  entry is the generated string exactly when the supplied id is empty or the
  placeholder \<^verbatim>\<open>@new\<close>, and the supplied id otherwise; its patient id is the request's.
  The new state is the loaded list with the entry appended, reconciled. This holds for
  every reconciler that permutes the list.
\<close>

theorem create_valid:
  assumes perm: "\<And>s. mset (reconcile s) = mset s"
    and body: "body = Inr bound"
    and patient: "PatientId bound \<noteq> ''''"
    and noconflict: "\<forall>w\<in>set (elems (WaitingList ambulance)).
          Id_entry (withGeneratedId newString bound) \<noteq> Id_entry w
        \<and> PatientId (withGeneratedId newString bound) \<noteq> PatientId w"
  shows "CreateWaitingListEntry reconcile newString body ambulance
           = Inr (Some (ambulance\<lparr>WaitingList := Some (reconcile
                     (elems (WaitingList ambulance) @ [withGeneratedId newString bound]))\<rparr>),
                  Entry (withGeneratedId newString bound), StatusOK)
         \<and> withGeneratedId newString bound \<in> set (reconcile
              (elems (WaitingList ambulance) @ [withGeneratedId newString bound]))
         \<and> Id_entry (withGeneratedId newString bound)
           = (if Id_entry bound = '''' \<or> Id_entry bound = ''@new'' then newString
              else Id_entry bound)
         \<and> PatientId (withGeneratedId newString bound) = PatientId bound"
proof -
  let ?e = "withGeneratedId newString bound"
  let ?s = "reconcile (elems (WaitingList ambulance) @ [?e])"
  let ?k = "IndexFunc ?s (\<lambda>waiting. Id_entry ?e = Id_entry waiting)"
  have set_s: "set ?s = set (elems (WaitingList ambulance) @ [?e])"
    by (rule mset_eq_setD) (rule perm)
  have "mset (map Id_entry (reconcile s)) = mset (map Id_entry s)" for s
    by (simp add: perm)
  then have found: "0 \<le> ?k" by (rule create_finds_appended)
  then have same_id: "Id_entry ?e = Id_entry (?s ! nat ?k)" by (rule IndexFunc_sat)
  have "?k < int (length ?s)" by (rule IndexFunc_bound)
  with found have "?s ! nat ?k \<in> set ?s" by simp
  with set_s have "?s ! nat ?k \<in> set (elems (WaitingList ambulance)) \<or> ?s ! nat ?k = ?e"
    by auto
  with noconflict same_id have at_k: "?s ! nat ?k = ?e" by auto
  have nc: "\<forall>w\<in>set (elems (WaitingList ambulance)).
      \<not> (Id_entry ?e = Id_entry w \<or> PatientId ?e = PatientId w)"
    using noconflict by simp
  have "CreateWaitingListEntry reconcile newString body ambulance
      = Inr (Some (ambulance\<lparr>WaitingList := Some ?s\<rparr>), Entry (?s ! nat ?k), StatusOK)"
    using body patient nc found by (rule create_appends)
  with at_k have "CreateWaitingListEntry reconcile newString body ambulance
      = Inr (Some (ambulance\<lparr>WaitingList := Some ?s\<rparr>), Entry ?e, StatusOK)"
    by simp
  moreover from set_s have "?e \<in> set ?s" by simp
  moreover have "Id_entry ?e
      = (if Id_entry bound = '''' \<or> Id_entry bound = ''@new'' then newString
         else Id_entry bound)"
    by (simp add: withGeneratedId_def)
  moreover have "PatientId ?e = PatientId bound"
    by (simp add: withGeneratedId_def)
  ultimately show ?thesis by simp
qed

theorem create_valid_witness:
  "CreateWaitingListEntry reconcileWaitingList ''u-1'' (Inr newcomer) bobulova
     = Inr (Some (bobulova\<lparr>WaitingList :=
              Some [early, newcomer\<lparr>Id_entry := ''u-1''\<rparr>, late]\<rparr>),
            Entry (newcomer\<lparr>Id_entry := ''u-1''\<rparr>), StatusOK)
   \<and> CreateWaitingListEntry reconcileWaitingList ''u-1''
       (Inr (newcomer\<lparr>Id_entry := ''c''\<rparr>)) unused
     = Inr (Some (unused\<lparr>WaitingList := Some [newcomer\<lparr>Id_entry := ''c''\<rparr>]\<rparr>),
            Entry (newcomer\<lparr>Id_entry := ''c''\<rparr>), StatusOK)"
proof -
  have p1: "PatientId newcomer \<noteq> ''''" by simp
  have n1: "\<forall>w\<in>set (elems (WaitingList bobulova)).
        Id_entry (withGeneratedId ''u-1'' newcomer) \<noteq> Id_entry w
      \<and> PatientId (withGeneratedId ''u-1'' newcomer) \<noteq> PatientId w"
    by (simp add: elems_def withGeneratedId_def)
  have p2: "PatientId (newcomer\<lparr>Id_entry := ''c''\<rparr>) \<noteq> ''''" by simp
  have n2: "\<forall>w\<in>set (elems (WaitingList unused)).
        Id_entry (withGeneratedId ''u-1'' (newcomer\<lparr>Id_entry := ''c''\<rparr>)) \<noteq> Id_entry w
      \<and> PatientId (withGeneratedId ''u-1'' (newcomer\<lparr>Id_entry := ''c''\<rparr>)) \<noteq> PatientId w"
    by (simp add: elems_def)
  show ?thesis
    using create_valid [of reconcileWaitingList, OF mset_reconcile refl p1 n1]
      create_valid [of reconcileWaitingList, OF mset_reconcile refl p2 n2]
    by (simp add: elems_def withGeneratedId_def reconcileWaitingList_def reconcile_key_def)
qed

text \<open>
  Claim C10. Create has a branch that returns status 500, ``Failed to save entry'',
  with a nil new state: it is taken when the request is valid and the id of the
  appended entry is not found in the list after reconciliation. For every reconciler
  that preserves the multiset of entry ids the branch is unreachable: Create returns
  status 500 for no request and no ambulance state.
\<close>

theorem create_save_failure_unreachable:
  assumes ids: "\<And>s. mset (map Id_entry (reconcile s)) = mset (map Id_entry s)"
  shows "(\<forall>updated p. CreateWaitingListEntry reconcile newString body ambulance
             \<noteq> Inr (updated, p, StatusInternalServerError))
         \<and> (PatientId bound \<noteq> ''''
            \<and> (\<forall>w\<in>set (elems (WaitingList loaded)).
                  Id_entry (withGeneratedId generated bound) \<noteq> Id_entry w
                \<and> PatientId (withGeneratedId generated bound) \<noteq> PatientId w)
            \<and> Id_entry (withGeneratedId generated bound) \<notin> Id_entry ` set (lossy
                  (elems (WaitingList loaded) @ [withGeneratedId generated bound]))
            \<longrightarrow> CreateWaitingListEntry lossy generated (Inr bound) loaded
                  = Inr (None, H StatusInternalServerError ''Failed to save entry'' None,
                         StatusInternalServerError))"
proof (intro conjI allI impI)
  fix updated p
  show "CreateWaitingListEntry reconcile newString body ambulance
      \<noteq> Inr (updated, p, StatusInternalServerError)"
  proof (cases body)
    case (Inl err)
    then show ?thesis by (simp add: CreateWaitingListEntry_def)
  next
    case (Inr entry0)
    have "0 \<le> IndexFunc
        (reconcile (elems (WaitingList ambulance) @ [withGeneratedId newString entry0]))
        (\<lambda>waiting. Id_entry (withGeneratedId newString entry0) = Id_entry waiting)"
      using ids by (rule create_finds_appended)
    with Inr show ?thesis
      by (simp add: CreateWaitingListEntry_def Let_def index_at_IndexFunc)
  qed
next
  let ?e = "withGeneratedId generated bound"
  let ?s = "lossy (elems (WaitingList loaded) @ [?e])"
  assume a: "PatientId bound \<noteq> ''''
      \<and> (\<forall>w\<in>set (elems (WaitingList loaded)).
            Id_entry ?e \<noteq> Id_entry w \<and> PatientId ?e \<noteq> PatientId w)
      \<and> Id_entry ?e \<notin> Id_entry ` set ?s"
  then have "\<forall>w\<in>set (elems (WaitingList loaded)).
      \<not> (Id_entry ?e = Id_entry w \<or> PatientId ?e = PatientId w)"
    by simp
  then have c: "IndexFunc (elems (WaitingList loaded))
      (\<lambda>waiting. Id_entry ?e = Id_entry waiting \<or> PatientId ?e = PatientId waiting) < 0"
    by (simp only: IndexFunc_neg_iff)
  from a have "\<forall>w\<in>set ?s. \<not> Id_entry ?e = Id_entry w" by auto
  then have k: "IndexFunc ?s (\<lambda>waiting. Id_entry ?e = Id_entry waiting) < 0"
    by (simp only: IndexFunc_neg_iff)
  from a c k show "CreateWaitingListEntry lossy generated (Inr bound) loaded
      = Inr (None, H StatusInternalServerError ''Failed to save entry'' None,
             StatusInternalServerError)"
    by (simp add: CreateWaitingListEntry_def Let_def)
qed

theorem create_save_failure_unreachable_witness:
  "(\<forall>updated p. CreateWaitingListEntry reconcileWaitingList ''u-1'' (Inr newcomer) bobulova
       \<noteq> Inr (updated, p, StatusInternalServerError))
   \<and> CreateWaitingListEntry (\<lambda>s. []) ''u-1'' (Inr newcomer) bobulova
     = Inr (None, H StatusInternalServerError ''Failed to save entry'' None,
            StatusInternalServerError)"
  using create_save_failure_unreachable [of reconcileWaitingList "''u-1''" "Inr newcomer"
      bobulova newcomer bobulova "''u-1''" "\<lambda>s. []", OF mset_ids_reconcile]
  by (simp add: elems_def withGeneratedId_def)

section \<open>No access out of range\<close>

lemma create_total: "\<exists>res. CreateWaitingListEntry r newString body ambulance = Inr res"
  by (cases body) (simp_all add: CreateWaitingListEntry_def Let_def index_at_IndexFunc)

lemma get_one_total: "\<exists>res. GetWaitingListEntry entryId ambulance = Inr res"
  by (simp add: GetWaitingListEntry_def Let_def index_at_IndexFunc)

lemma delete_total: "\<exists>res. DeleteWaitingListEntry r entryId ambulance = Inr res"
proof -
  have "IndexFunc (elems (WaitingList ambulance)) (\<lambda>waiting. entryId = Id_entry waiting)
          < int (length (elems (WaitingList ambulance)))"
    by (rule IndexFunc_bound)
  then show ?thesis
    by (simp add: DeleteWaitingListEntry_def Let_def slice_to_def slice_from_def)
qed

lemma update_total:
  assumes len: "\<And>s. length (reconcile s) = length s"
  shows "\<exists>res. UpdateWaitingListEntry reconcile body entryId ambulance = Inr res"
proof (cases body)
  case (Inl err)
  then show ?thesis by (simp add: UpdateWaitingListEntry_def)
next
  case (Inr entry)
  have b: "IndexFunc (elems (WaitingList ambulance)) (\<lambda>waiting. entryId = Id_entry waiting)
          < int (length (elems (WaitingList ambulance)))"
    by (rule IndexFunc_bound)
  show ?thesis using Inr b
    by (simp add: UpdateWaitingListEntry_def Let_def assign_at_ok index_at_ok len)
qed

text \<open>
  The last access of Update reads the reconciled list at the index that was found
  before the merge. The guard on that index keeps the access in range only because
  reconciliation does not shorten the list: with a reconciler that drops entries,
  Update panics.
\<close>

lemma update_panics_when_list_shrinks:
  "UpdateWaitingListEntry (\<lambda>s. []) (Inr newcomer) ''a'' bobulova = Inl IndexOutOfRange"
  by (simp add: UpdateWaitingListEntry_def Let_def elems_def IndexFunc_def
      assign_at_def index_at_def)

text \<open>
  Claim C9. No operation performs an out-of-range access to the waiting list: Create,
  Get-one, Update and Delete return a response, never the panic, for every request and
  every ambulance state. In Create, Get-one and Delete the index comes from IndexFunc on
  the list that is accessed and is checked to be non-negative, so this holds whatever
  the reconciler does. In Update the same guard covers the four assignments; the final
  read follows reconciliation, which keeps the length of the list.
\<close>

theorem index_accesses_in_range:
  assumes len: "\<And>s. length (reconcile s) = length s"
  shows "(\<exists>res. CreateWaitingListEntry anyReconciler newString body ambulance = Inr res)
       \<and> (\<exists>res. GetWaitingListEntry entryId ambulance = Inr res)
       \<and> (\<exists>res. UpdateWaitingListEntry reconcile body entryId ambulance = Inr res)
       \<and> (\<exists>res. DeleteWaitingListEntry anyReconciler entryId ambulance = Inr res)"
  using create_total get_one_total update_total [of reconcile, OF len] delete_total
  by blast

theorem index_accesses_in_range_witness:
  "(\<exists>res. CreateWaitingListEntry reconcileWaitingList ''u-1'' (Inr newcomer) bobulova = Inr res)
   \<and> (\<exists>res. GetWaitingListEntry ''b'' bobulova = Inr res)
   \<and> (\<exists>res. UpdateWaitingListEntry reconcileWaitingList (Inr newcomer) ''a'' bobulova = Inr res)
   \<and> (\<exists>res. DeleteWaitingListEntry reconcileWaitingList ''b'' bobulova = Inr res)"
  using index_accesses_in_range [of reconcileWaitingList, OF length_reconcile]
  by blast

section \<open>Every mutation returns a reconciled list\<close>

lemma reconcile_key_le: "reconcile_key a \<le> reconcile_key b \<longleftrightarrow> entry_le a b"
  by (auto simp: reconcile_key_def entry_le_def less_eq_prod_def)

lemma reconcile_ordered: "sorted_wrt entry_le (reconcileWaitingList s)"
proof -
  have "sorted_wrt (\<lambda>a b. reconcile_key a \<le> reconcile_key b) (reconcileWaitingList s)"
    using sorted_reconcile [of s] by (simp only: sorted_map)
  then show ?thesis by (simp only: reconcile_key_le)
qed

lemma earliest_first:
  "sorted_wrt entry_le s \<Longrightarrow> e \<in> set s \<Longrightarrow> WaitingSince (hd s) \<le> WaitingSince e"
  by (cases s) (auto simp: entry_le_def)

lemma new_state_is_reconciled:
  assumes "CreateWaitingListEntry reconcile newString body ambulance = Inr (Some newState, p, status)
         \<or> UpdateWaitingListEntry reconcile body entryId ambulance = Inr (Some newState, p, status)
         \<or> DeleteWaitingListEntry reconcile entryId ambulance = Inr (Some newState, p, status)"
  shows "\<exists>s. WaitingList newState = Some (reconcile s)"
  using assms
proof (elim disjE)
  assume "CreateWaitingListEntry reconcile newString body ambulance = Inr (Some newState, p, status)"
  then show ?thesis by (auto dest!: create_new_state)
next
  assume "UpdateWaitingListEntry reconcile body entryId ambulance = Inr (Some newState, p, status)"
  then show ?thesis by (auto dest!: update_new_state)
next
  assume "DeleteWaitingListEntry reconcile entryId ambulance = Inr (Some newState, p, status)"
  then show ?thesis by (auto dest!: delete_new_state)
qed

text \<open>
  Claim C3. Whenever Create, Update or Delete returns a non-nil new state, the waiting
  list of that state is sorted by waitingSince ascending, ties broken by the entry id;
  Get-all on that state returns this list with status 200, and no entry of the list has
  an earlier waitingSince than the first.
\<close>

theorem mutations_return_sorted_list:
  assumes "CreateWaitingListEntry reconcileWaitingList newString body ambulance
             = Inr (Some newState, p, status)
         \<or> UpdateWaitingListEntry reconcileWaitingList body entryId ambulance
             = Inr (Some newState, p, status)
         \<or> DeleteWaitingListEntry reconcileWaitingList entryId ambulance
             = Inr (Some newState, p, status)"
  shows "sorted_wrt entry_le (elems (WaitingList newState))
       \<and> GetWaitingListEntries newState
           = Inr (None, Entries (Some (elems (WaitingList newState))), StatusOK)
       \<and> (\<forall>e\<in>set (elems (WaitingList newState)).
            WaitingSince (hd (elems (WaitingList newState))) \<le> WaitingSince e)"
proof -
  from assms obtain s where "WaitingList newState = Some (reconcileWaitingList s)"
    using new_state_is_reconciled by blast
  then have sorted: "sorted_wrt entry_le (elems (WaitingList newState))"
    by (simp add: elems_def reconcile_ordered)
  moreover have "GetWaitingListEntries newState
      = Inr (None, Entries (Some (elems (WaitingList newState))), StatusOK)"
    by (simp add: GetWaitingListEntries_def elems_def split: option.splits)
  moreover from sorted have "\<forall>e\<in>set (elems (WaitingList newState)).
      WaitingSince (hd (elems (WaitingList newState))) \<le> WaitingSince e"
    by (blast intro: earliest_first)
  ultimately show ?thesis by simp
qed

lemma create_example:
  "CreateWaitingListEntry reconcileWaitingList ''u-1''
       (Inr (newcomer\<lparr>WaitingSince := 50\<rparr>)) bobulova
     = Inr (Some (bobulova\<lparr>WaitingList := Some
              [newcomer\<lparr>Id_entry := ''u-1'', WaitingSince := 50\<rparr>, early, late]\<rparr>),
            Entry (newcomer\<lparr>Id_entry := ''u-1'', WaitingSince := 50\<rparr>), StatusOK)"
  by (simp add: CreateWaitingListEntry_def Let_def elems_def withGeneratedId_def
      IndexFunc_def index_at_def reconcileWaitingList_def reconcile_key_def)

lemma update_example:
  "UpdateWaitingListEntry reconcileWaitingList
       (Inr \<lparr>Id_entry = '''', PatientId = '''', WaitingSince = 0,
             EstimatedDurationMinutes = 45\<rparr>) ''b'' bobulova
     = Inr (Some (bobulova\<lparr>WaitingList := Some
              [early, late\<lparr>EstimatedDurationMinutes := 45\<rparr>]\<rparr>),
            Entry (late\<lparr>EstimatedDurationMinutes := 45\<rparr>), StatusOK)"
  by (simp add: UpdateWaitingListEntry_def Let_def elems_def IndexFunc_def
      assign_at_def index_at_def reconcileWaitingList_def reconcile_key_def)

lemma delete_example:
  "DeleteWaitingListEntry reconcileWaitingList ''a'' bobulova
     = Inr (Some (bobulova\<lparr>WaitingList := Some [late]\<rparr>), NoBody, StatusNoContent)"
  by (simp add: DeleteWaitingListEntry_def Let_def elems_def IndexFunc_def
      slice_to_def slice_from_def reconcileWaitingList_def reconcile_key_def)

theorem mutations_return_sorted_list_witness:
  "sorted_wrt entry_le
     [newcomer\<lparr>Id_entry := ''u-1'', WaitingSince := 50\<rparr>, early, late]
   \<and> GetWaitingListEntries (bobulova\<lparr>WaitingList := Some
        [newcomer\<lparr>Id_entry := ''u-1'', WaitingSince := 50\<rparr>, early, late]\<rparr>)
     = Inr (None, Entries (Some
        [newcomer\<lparr>Id_entry := ''u-1'', WaitingSince := 50\<rparr>, early, late]), StatusOK)
   \<and> sorted_wrt entry_le [early, late\<lparr>EstimatedDurationMinutes := 45\<rparr>]
   \<and> sorted_wrt entry_le [late]"
  using mutations_return_sorted_list [OF disjI1, OF create_example]
    mutations_return_sorted_list [OF disjI2, OF disjI1, OF update_example]
    mutations_return_sorted_list [OF disjI2, OF disjI2, OF delete_example]
  by (simp add: elems_def)

section \<open>Uniqueness of ids and patient ids\<close>

lemma unique_ids_permuted:
  assumes "mset s' = mset s"
  shows "unique_ids s' = unique_ids s"
proof -
  from assms have "mset (map Id_entry s') = mset (map Id_entry s)" by simp
  then have one: "distinct (map Id_entry s') = distinct (map Id_entry s)"
    by (rule mset_eq_imp_distinct_iff)
  from assms have "mset (map PatientId s') = mset (map PatientId s)" by simp
  then have "distinct (map PatientId s') = distinct (map PatientId s)"
    by (rule mset_eq_imp_distinct_iff)
  with one show ?thesis by (simp add: unique_ids_def)
qed

lemma unique_ids_append:
  assumes "unique_ids s"
    and "\<forall>w\<in>set s. Id_entry e \<noteq> Id_entry w \<and> PatientId e \<noteq> PatientId w"
  shows "unique_ids (s @ [e])"
  using assms by (auto simp: unique_ids_def)

lemma distinct_without_nth:
  assumes "distinct (map f s)" and "k < length s"
  shows "distinct (map f (take k s @ drop (Suc k) s))"
proof -
  from assms(2) have "s = take k s @ s ! k # drop (Suc k) s"
    by (rule id_take_nth_drop)
  then have "map f s = map f (take k s) @ f (s ! k) # map f (drop (Suc k) s)"
    by (metis list.simps(9) map_append)
  with assms(1) show ?thesis by auto
qed

lemma unique_ids_without_nth:
  "unique_ids s \<Longrightarrow> k < length s \<Longrightarrow> unique_ids (take k s @ drop (Suc k) s)"
  unfolding unique_ids_def by (blast intro: distinct_without_nth)

lemma distinct_map_update:
  assumes "distinct (map f s)" and "k < length s"
    and "f v = f (s ! k) \<or> f v \<notin> f ` set s"
  shows "distinct (map f (s[k := v]))"
proof -
  from assms(2,3) have "f v \<notin> set (map f s) - {map f s ! k}" by auto
  with assms(1) have "distinct ((map f s)[k := f v])" by (rule distinct_list_update)
  then show ?thesis by (simp only: map_update)
qed

lemma unique_ids_merged:
  assumes uniq: "unique_ids s" and k: "k < length s" and target: "Id_entry (s ! k) = entryId"
    and id_free: "Id_entry entry = '''' \<or>
      Id_entry entry \<notin> Id_entry ` {w \<in> set s. Id_entry w \<noteq> entryId}"
    and patient_free: "PatientId entry = '''' \<or>
      PatientId entry \<notin> PatientId ` {w \<in> set s. Id_entry w \<noteq> entryId}"
  shows "unique_ids (s[k := merged entry (s ! k)])"
proof -
  from uniq have d_id: "distinct (map Id_entry s)" and d_pat: "distinct (map PatientId s)"
    by (simp_all add: unique_ids_def)
  have "Id_entry (merged entry (s ! k)) = Id_entry (s ! k)
      \<or> Id_entry (merged entry (s ! k)) \<notin> Id_entry ` set s"
    using id_free target by (auto simp: merged_def)
  with d_id k have one: "distinct (map Id_entry (s[k := merged entry (s ! k)]))"
    by (rule distinct_map_update)
  have "PatientId (merged entry (s ! k)) = PatientId (s ! k)
      \<or> PatientId (merged entry (s ! k)) \<notin> PatientId ` set s"
  proof (cases "PatientId entry = ''''")
    case True
    then show ?thesis by (simp add: merged_def)
  next
    case False
    with patient_free
    have others: "\<forall>w\<in>set s. Id_entry w \<noteq> entryId \<longrightarrow> PatientId w \<noteq> PatientId entry"
      by (auto simp: image_iff)
    show ?thesis
    proof (cases "PatientId entry \<in> PatientId ` set s")
      case True
      then obtain w where w: "w \<in> set s" "PatientId w = PatientId entry" by auto
      with others have "Id_entry w = Id_entry (s ! k)" using target by auto
      moreover from d_id have "inj_on Id_entry (set s)" by (simp add: distinct_map)
      moreover from k have "s ! k \<in> set s" by simp
      ultimately have "w = s ! k" using w(1) by (auto dest: inj_onD)
      with w(2) False show ?thesis by (simp add: merged_def)
    next
      case False
      with \<open>PatientId entry \<noteq> ''''\<close> show ?thesis by (simp add: merged_def)
    qed
  qed
  with d_pat k have two: "distinct (map PatientId (s[k := merged entry (s ! k)]))"
    by (rule distinct_map_update)
  from one two show ?thesis by (simp add: unique_ids_def)
qed

lemma create_ok_has_state:
  "CreateWaitingListEntry reconcile newString body ambulance = Inr (updated, p, StatusOK)
   \<Longrightarrow> \<exists>newState. updated = Some newState"
  by (cases body; cases updated)
    (auto simp: CreateWaitingListEntry_def Let_def and_then_def
      split: if_splits sum.splits)

lemma delete_ok_has_state:
  "DeleteWaitingListEntry reconcile entryId ambulance = Inr (updated, p, StatusNoContent)
   \<Longrightarrow> \<exists>newState. updated = Some newState"
  by (cases updated)
    (auto simp: DeleteWaitingListEntry_def Let_def and_then_def
      split: if_splits sum.splits)

lemma update_ok_has_state:
  "UpdateWaitingListEntry reconcile body entryId ambulance = Inr (updated, p, StatusOK)
   \<Longrightarrow> \<exists>newState. updated = Some newState"
  by (cases body; cases updated)
    (auto simp: UpdateWaitingListEntry_def Let_def and_then_def
      split: if_splits sum.splits)

text \<open>
  Claim C1, as the code has it. Let the ids and the patient ids of the loaded list each
  be pairwise distinct, and let the reconciler permute the list. When Create returns
  200 or Delete returns 204, the ids and the patient ids of the new state are each
  pairwise distinct. When Update returns 200 they are, provided that each of the
  request's id and patient id is empty or differs from the id, respectively the patient
  id, of every entry other than the target. Update makes no such check itself.
\<close>

theorem uniqueness_preserved:
  assumes perm: "\<And>s. mset (reconcile s) = mset s"
    and uniq: "unique_ids (elems (WaitingList ambulance))"
  shows "(CreateWaitingListEntry reconcile newString body ambulance = Inr (updated, p, StatusOK)
            \<longrightarrow> (\<exists>newState. updated = Some newState
                    \<and> unique_ids (elems (WaitingList newState))))
       \<and> (DeleteWaitingListEntry reconcile entryId ambulance
              = Inr (updated, p, StatusNoContent)
            \<longrightarrow> (\<exists>newState. updated = Some newState
                    \<and> unique_ids (elems (WaitingList newState))))
       \<and> (UpdateWaitingListEntry reconcile (Inr entry) entryId ambulance
              = Inr (updated, p, StatusOK)
            \<and> (Id_entry entry = '''' \<or> Id_entry entry \<notin> Id_entry `
                  {w \<in> set (elems (WaitingList ambulance)). Id_entry w \<noteq> entryId})
            \<and> (PatientId entry = '''' \<or> PatientId entry \<notin> PatientId `
                  {w \<in> set (elems (WaitingList ambulance)). Id_entry w \<noteq> entryId})
            \<longrightarrow> (\<exists>newState. updated = Some newState
                    \<and> unique_ids (elems (WaitingList newState))))"
proof (intro conjI impI)
  assume r: "CreateWaitingListEntry reconcile newString body ambulance
      = Inr (updated, p, StatusOK)"
  then obtain newState where s: "updated = Some newState"
    using create_ok_has_state by blast
  with r obtain bound where
    noconflict: "\<forall>w\<in>set (elems (WaitingList ambulance)).
        Id_entry (withGeneratedId newString bound) \<noteq> Id_entry w
      \<and> PatientId (withGeneratedId newString bound) \<noteq> PatientId w"
    and new: "newState = ambulance\<lparr>WaitingList := Some (reconcile
        (elems (WaitingList ambulance) @ [withGeneratedId newString bound]))\<rparr>"
    using create_new_state [of reconcile newString body ambulance newState p StatusOK]
    by auto
  from uniq noconflict
  have "unique_ids (elems (WaitingList ambulance) @ [withGeneratedId newString bound])"
    by (rule unique_ids_append)
  then have "unique_ids (reconcile
      (elems (WaitingList ambulance) @ [withGeneratedId newString bound]))"
    by (simp only: unique_ids_permuted [OF perm])
  with new have "unique_ids (elems (WaitingList newState))" by (simp add: elems_def)
  with s show "\<exists>newState. updated = Some newState \<and> unique_ids (elems (WaitingList newState))"
    by simp
next
  assume r: "DeleteWaitingListEntry reconcile entryId ambulance
      = Inr (updated, p, StatusNoContent)"
  then obtain newState where s: "updated = Some newState"
    using delete_ok_has_state by blast
  with r obtain k where k: "k < length (elems (WaitingList ambulance))"
    and new: "newState = ambulance\<lparr>WaitingList := Some (reconcile
        (take k (elems (WaitingList ambulance)) @ drop (Suc k) (elems (WaitingList ambulance))))\<rparr>"
    using delete_new_state [of reconcile entryId ambulance newState p StatusNoContent]
    by auto
  from uniq k
  have "unique_ids (take k (elems (WaitingList ambulance))
      @ drop (Suc k) (elems (WaitingList ambulance)))"
    by (rule unique_ids_without_nth)
  then have "unique_ids (reconcile (take k (elems (WaitingList ambulance))
      @ drop (Suc k) (elems (WaitingList ambulance))))"
    by (simp only: unique_ids_permuted [OF perm])
  with new have "unique_ids (elems (WaitingList newState))" by (simp add: elems_def)
  with s show "\<exists>newState. updated = Some newState \<and> unique_ids (elems (WaitingList newState))"
    by simp
next
  let ?s = "elems (WaitingList ambulance)"
  assume a: "UpdateWaitingListEntry reconcile (Inr entry) entryId ambulance
        = Inr (updated, p, StatusOK)
      \<and> (Id_entry entry = '''' \<or> Id_entry entry \<notin> Id_entry `
            {w \<in> set ?s. Id_entry w \<noteq> entryId})
      \<and> (PatientId entry = '''' \<or> PatientId entry \<notin> PatientId `
            {w \<in> set ?s. Id_entry w \<noteq> entryId})"
  then obtain newState where s: "updated = Some newState"
    using update_ok_has_state by blast
  with a obtain k where k: "k < length ?s" and target: "Id_entry (?s ! k) = entryId"
    and new: "newState = ambulance\<lparr>WaitingList := Some (reconcile
        (?s[k := merged entry (?s ! k)]))\<rparr>"
    using update_new_state [of reconcile "Inr entry" entryId ambulance newState p StatusOK]
    by auto
  from a have id_free: "Id_entry entry = '''' \<or> Id_entry entry \<notin> Id_entry `
        {w \<in> set ?s. Id_entry w \<noteq> entryId}"
    and patient_free: "PatientId entry = '''' \<or> PatientId entry \<notin> PatientId `
        {w \<in> set ?s. Id_entry w \<noteq> entryId}"
    by simp_all
  from uniq k target id_free patient_free
  have "unique_ids (?s[k := merged entry (?s ! k)])"
    by (rule unique_ids_merged)
  then have "unique_ids (reconcile (?s[k := merged entry (?s ! k)]))"
    by (simp only: unique_ids_permuted [OF perm])
  with new have "unique_ids (elems (WaitingList newState))" by (simp add: elems_def)
  with s show "\<exists>newState. updated = Some newState \<and> unique_ids (elems (WaitingList newState))"
    by simp
qed

lemma update_example_renamed:
  "UpdateWaitingListEntry reconcileWaitingList
       (Inr \<lparr>Id_entry = ''b2'', PatientId = ''p9'', WaitingSince = 0,
             EstimatedDurationMinutes = 45\<rparr>) ''b'' bobulova
     = Inr (Some (bobulova\<lparr>WaitingList := Some
              [early, \<lparr>Id_entry = ''b2'', PatientId = ''p9'', WaitingSince = 200,
                       EstimatedDurationMinutes = 45\<rparr>]\<rparr>),
            Entry \<lparr>Id_entry = ''b2'', PatientId = ''p9'', WaitingSince = 200,
                   EstimatedDurationMinutes = 45\<rparr>, StatusOK)"
  by (simp add: UpdateWaitingListEntry_def Let_def elems_def IndexFunc_def
      assign_at_def index_at_def reconcileWaitingList_def reconcile_key_def)

theorem uniqueness_preserved_witness:
  "unique_ids [newcomer\<lparr>Id_entry := ''u-1'', WaitingSince := 50\<rparr>, early, late]
   \<and> unique_ids [late]
   \<and> unique_ids [early, \<lparr>Id_entry = ''b2'', PatientId = ''p9'', WaitingSince = 200,
                           EstimatedDurationMinutes = 45\<rparr>]"
proof -
  have u: "unique_ids (elems (WaitingList bobulova))"
    by (simp add: elems_def unique_ids_def)
  have i: "''b2'' \<notin> Id_entry `
      {w \<in> set (elems (WaitingList bobulova)). Id_entry w \<noteq> ''b''}"
    by (auto simp: elems_def)
  have j: "''p9'' \<notin> PatientId `
      {w \<in> set (elems (WaitingList bobulova)). Id_entry w \<noteq> ''b''}"
    by (auto simp: elems_def)
  note kept = uniqueness_preserved [of reconcileWaitingList bobulova, OF mset_reconcile u]
  have "unique_ids [newcomer\<lparr>Id_entry := ''u-1'', WaitingSince := 50\<rparr>, early, late]"
    using kept [THEN conjunct1, THEN mp, OF create_example] by (simp add: elems_def)
  moreover have "unique_ids [late]"
    using kept [THEN conjunct2, THEN conjunct1, THEN mp, OF delete_example]
    by (simp add: elems_def)
  moreover have "unique_ids [early, \<lparr>Id_entry = ''b2'', PatientId = ''p9'',
      WaitingSince = 200, EstimatedDurationMinutes = 45\<rparr>]"
    using kept [THEN conjunct2, THEN conjunct2, THEN mp,
        OF conjI [OF update_example_renamed conjI]] i j
    by (simp add: elems_def)
  ultimately show ?thesis by simp
qed

text \<open>
  Claim C1 as stated fails for Update: with two entries whose ids are \<open>a\<close> and \<open>b\<close>, an
  Update of entry \<open>a\<close> whose body carries the id \<open>b\<close> returns 200, and both entries of the
  new state have the id \<open>b\<close>.
\<close>

theorem update_breaks_uniqueness:
  "unique_ids (elems (WaitingList bobulova))
   \<and> UpdateWaitingListEntry reconcileWaitingList
       (Inr \<lparr>Id_entry = ''b'', PatientId = '''', WaitingSince = 0,
             EstimatedDurationMinutes = 0\<rparr>) ''a'' bobulova
     = Inr (Some (bobulova\<lparr>WaitingList := Some [early\<lparr>Id_entry := ''b''\<rparr>, late]\<rparr>),
            Entry (early\<lparr>Id_entry := ''b''\<rparr>), StatusOK)
   \<and> \<not> unique_ids [early\<lparr>Id_entry := ''b''\<rparr>, late]"
  by (simp add: UpdateWaitingListEntry_def Let_def elems_def IndexFunc_def
      assign_at_def index_at_def reconcileWaitingList_def reconcile_key_def unique_ids_def)

section \<open>What Update returns\<close>

text \<open>
  For a request that binds and whose entryId is the id of an entry, Update returns 200;
  the new state is the list with the target replaced by the merged entry, reconciled;
  the payload is the entry that stands, after reconciliation, at the index the target
  had before the merge.
\<close>

lemma update_response:
  assumes len: "\<And>s. length (reconcile s) = length s"
    and "entryId \<noteq> ''''"
    and "entryId \<in> Id_entry ` set (elems (WaitingList ambulance))"
  shows "UpdateWaitingListEntry reconcile (Inr entry) entryId ambulance =
     Inr (Some (ambulance\<lparr>WaitingList := Some
            (reconcile ((elems (WaitingList ambulance))
               [nat (IndexFunc (elems (WaitingList ambulance)) (\<lambda>waiting. entryId = Id_entry waiting))
                  := merged entry (elems (WaitingList ambulance)
                       ! nat (IndexFunc (elems (WaitingList ambulance)) (\<lambda>waiting. entryId = Id_entry waiting)))]))\<rparr>),
          Entry (reconcile ((elems (WaitingList ambulance))
               [nat (IndexFunc (elems (WaitingList ambulance)) (\<lambda>waiting. entryId = Id_entry waiting))
                  := merged entry (elems (WaitingList ambulance)
                       ! nat (IndexFunc (elems (WaitingList ambulance)) (\<lambda>waiting. entryId = Id_entry waiting)))])
            ! nat (IndexFunc (elems (WaitingList ambulance)) (\<lambda>waiting. entryId = Id_entry waiting))),
          StatusOK)"
proof -
  let ?s = "elems (WaitingList ambulance)"
  let ?i = "IndexFunc ?s (\<lambda>waiting. entryId = Id_entry waiting)"
  from assms(3) have "\<exists>w\<in>set ?s. entryId = Id_entry w" by auto
  then have nn: "0 \<le> ?i" by (simp only: IndexFunc_nonneg_iff)
  have b: "?i < int (length ?s)" by (rule IndexFunc_bound)
  from nn b show ?thesis
    by (simp add: update_merges [OF assms(2) nn] index_at_ok len)
qed

text \<open>
  Claim C2 fails on the code. The list holds the entries \<open>a\<close> (waiting since 100) and
  \<open>b\<close> (waiting since 200). An Update of \<open>a\<close> that sets waitingSince to 300 returns 200,
  and the new state holds the merged entry, but reconciliation has moved it behind \<open>b\<close>:
  the payload, read at the index found before the merge, is entry \<open>b\<close> and not the
  merged target.
\<close>

theorem update_returns_entry_at_stale_index:
  "UpdateWaitingListEntry reconcileWaitingList
       (Inr \<lparr>Id_entry = '''', PatientId = '''', WaitingSince = 300,
             EstimatedDurationMinutes = 0\<rparr>) ''a'' bobulova
     = Inr (Some (bobulova\<lparr>WaitingList := Some [late, early\<lparr>WaitingSince := 300\<rparr>]\<rparr>),
            Entry late, StatusOK)
   \<and> merged \<lparr>Id_entry = '''', PatientId = '''', WaitingSince = 300,
              EstimatedDurationMinutes = 0\<rparr> early = early\<lparr>WaitingSince := 300\<rparr>
   \<and> late \<noteq> early\<lparr>WaitingSince := 300\<rparr>"
  by (simp add: UpdateWaitingListEntry_def Let_def elems_def IndexFunc_def
      assign_at_def index_at_def reconcileWaitingList_def reconcile_key_def merged_def)

section \<open>The reconciler is idempotent\<close>

text \<open>
  Claim C6. Reconciling a list that has already been reconciled changes nothing:
  applying the reconciler twice gives the same list as applying it once, and a list
  that is the output of the reconciler is a fixed point of it.
\<close>

theorem reconcile_idempotent:
  "reconcileWaitingList (reconcileWaitingList entries) = reconcileWaitingList entries"
  unfolding reconcileWaitingList_def
  by (rule sort_key_id_if_sorted) simp

end
